theory Spec2Isabelle
  imports Main "HOL-Library.AList"
begin

section \<open>WebRTC signaling relay: data model\<close>

text \<open>
  Shallow embedding of \<^verbatim>\<open>server/services/webrtcSignalingService.ts\<close>.
  A WebSocket object is a reference; the model names it by a number and keeps its mutable
  fields in a store. A JavaScript \<^verbatim>\<open>Map\<close> iterates in insertion order, so the
  participants of a room are an association list.
\<close>

type_synonym userId = string
type_synonym callId = string
type_synonym payload = string
type_synonym ws = nat

text \<open>\<^verbatim>\<open>interface SignalingMessage\<close>: the object \<^verbatim>\<open>JSON.parse\<close> returns. The
  field \<^verbatim>\<open>type\<close> is whatever string the client sent.\<close>

record signaling_message =
  type :: string
  callId :: callId
  userId :: userId
  data :: "payload option"

text \<open>What \<^verbatim>\<open>JSON.parse(message)\<close> does with the text frame: it throws, or it returns
  the object.\<close>

datatype inbound = Unparseable | Parsed signaling_message

text \<open>The objects handed to \<^verbatim>\<open>ws.send(JSON.stringify(...))\<close>.\<close>

datatype outbound =
    ErrorMsg string
  | Joined callId nat
  | UserJoined userId
  | UserLeft userId
  | Relayed string "payload option" userId

datatype ready_state = CONNECTING | OPEN | CLOSING | CLOSED

text \<open>The fields of a WebSocket the service reads or writes: the identity stored at
  connect time, the call identifier stored by a successful join, the transport's
  \<^verbatim>\<open>readyState\<close>, and the frames handed to \<^verbatim>\<open>send\<close> so far.\<close>

record conn =
  authenticatedUserId :: userId
  ws_callId :: "callId option"
  readyState :: ready_state
  outbox :: "outbound list"

text \<open>\<^verbatim>\<open>interface CallRoom\<close>.\<close>

record call_room =
  room_callId :: callId
  participants :: "(userId \<times> ws) list"

text \<open>A row of the \<^verbatim>\<open>video_calls\<close> table; both columns are nullable.\<close>

record video_call =
  initiatorId :: "userId option"
  participantId :: "userId option"

text \<open>The answer of \<^verbatim>\<open>await videoCallService.getVideoCall(callId)\<close>: the promise
  rejects, or it resolves to a row or to \<^verbatim>\<open>undefined\<close>.\<close>

datatype registry_answer = Rejected | Resolved "video_call option"

type_synonym registry = "callId \<Rightarrow> registry_answer"

text \<open>The service object: the room directory, the store of WebSocket objects, and the
  trace of registry lookups made so far.\<close>

record service =
  rooms :: "callId \<rightharpoonup> call_room"
  sockets :: "ws \<Rightarrow> conn"
  lookups :: "callId list"

text \<open>How a call of an \<^verbatim>\<open>async\<close> handler ends: it returns, or its promise
  rejects and the \<^verbatim>\<open>catch\<close> of the caller runs.\<close>

datatype completion = Normal | Threw

section \<open>Operations\<close>

text \<open>JavaScript truthiness of a string.\<close>

definition truthy :: "string \<Rightarrow> bool" where
  "truthy s = (s \<noteq> [])"

text \<open>\<^verbatim>\<open>Map.prototype.has\<close> on the insertion-ordered list; \<^verbatim>\<open>set\<close> is
  \<^const>\<open>AList.update\<close> (in place, or appended), \<^verbatim>\<open>delete\<close> is
  \<^const>\<open>AList.delete\<close>, \<^verbatim>\<open>size\<close> is the length: a list built from the empty
  one by these two has no key twice.\<close>

definition has :: "'k \<Rightarrow> ('k \<times> 'v) list \<Rightarrow> bool" where
  "has k m = (map_of m k \<noteq> None)"

text \<open>\<^verbatim>\<open>ws.send(JSON.stringify(m))\<close>: the frame is recorded on the socket.\<close>

definition send :: "ws \<Rightarrow> outbound \<Rightarrow> service \<Rightarrow> service" where
  "send w m st =
     st\<lparr>sockets := (sockets st)(w := (sockets st w)\<lparr>outbox := outbox (sockets st w) @ [m]\<rparr>)\<rparr>"

text \<open>The callback of \<^verbatim>\<open>room.participants.forEach\<close> in \<^verbatim>\<open>broadcastToRoom\<close>.\<close>

definition broadcast_one :: "outbound \<Rightarrow> userId option \<Rightarrow> userId \<times> ws \<Rightarrow> service \<Rightarrow> service" where
  "broadcast_one message excludeUserId p st =
     (if Some (fst p) \<noteq> excludeUserId \<and> readyState (sockets st (snd p)) = OPEN
      then send (snd p) message st else st)"

definition broadcastToRoom :: "callId \<Rightarrow> outbound \<Rightarrow> userId option \<Rightarrow> service \<Rightarrow> service" where
  "broadcastToRoom cid message excludeUserId st =
     (case rooms st cid of
        None \<Rightarrow> st
      | Some room \<Rightarrow> fold (broadcast_one message excludeUserId) (participants room) st)"

definition handleJoin :: "ws \<Rightarrow> callId \<Rightarrow> userId \<Rightarrow> service \<Rightarrow> service" where
  "handleJoin w cid uid st =
     (let room = (case rooms st cid of
                    None \<Rightarrow> \<lparr>room_callId = cid, participants = []\<rparr>
                  | Some r \<Rightarrow> r);
          st1 = (case rooms st cid of
                   None \<Rightarrow> st\<lparr>rooms := (rooms st)(cid \<mapsto> room)\<rparr>
                 | Some r \<Rightarrow> st)
      in if has uid (participants room)
         then send w (ErrorMsg ''User already connected to this call'') st1
         else if length (participants room) \<ge> 2
         then send w (ErrorMsg ''Call is full'') st1
         else
           let room' = room\<lparr>participants := AList.update uid w (participants room)\<rparr>;
               st2 = st1\<lparr>rooms := (rooms st1)(cid \<mapsto> room')\<rparr>;
               st3 = st2\<lparr>sockets := (sockets st2)(w := (sockets st2 w)\<lparr>ws_callId := Some cid\<rparr>)\<rparr>;
               st4 = broadcastToRoom cid (UserJoined uid) (Some uid) st3
           in send w (Joined cid (length (participants room'))) st4)"

definition relaySignalingMessage :: "callId \<Rightarrow> userId \<Rightarrow> string \<Rightarrow> payload option \<Rightarrow> service \<Rightarrow> service" where
  "relaySignalingMessage cid fromUserId ty d st =
     (case rooms st cid of
        None \<Rightarrow> st
      | Some room \<Rightarrow> broadcastToRoom cid (Relayed ty d fromUserId) (Some fromUserId) st)"

definition handleLeave :: "callId \<Rightarrow> userId \<Rightarrow> service \<Rightarrow> service" where
  "handleLeave cid uid st =
     (case rooms st cid of
        None \<Rightarrow> st
      | Some room \<Rightarrow>
          let room' = room\<lparr>participants := AList.delete uid (participants room)\<rparr>;
              st1 = st\<lparr>rooms := (rooms st)(cid \<mapsto> room')\<rparr>;
              st2 = broadcastToRoom cid (UserLeft uid) None st1
          in if length (participants room') = 0
             then st2\<lparr>rooms := (rooms st2)(cid := None)\<rparr>
             else st2)"

definition handleDisconnect :: "ws \<Rightarrow> service \<Rightarrow> service" where
  "handleDisconnect w st =
     (let uid = authenticatedUserId (sockets st w)
      in case ws_callId (sockets st w) of
           None \<Rightarrow> st
         | Some cid \<Rightarrow> if truthy cid \<and> truthy uid then handleLeave cid uid st else st)"

text \<open>\<^verbatim>\<open>handleMessage\<close>: the registry is asked first, for every kind of envelope; the
  \<^verbatim>\<open>switch\<close> has no default branch.\<close>

definition handleMessage :: "registry \<Rightarrow> ws \<Rightarrow> signaling_message \<Rightarrow> service \<Rightarrow> completion \<times> service" where
  "handleMessage getVideoCall w message st =
     (let st0 = st\<lparr>lookups := lookups st @ [callId message]\<rparr> in
      case getVideoCall (callId message) of
        Rejected \<Rightarrow> (Threw, st0)
      | Resolved None \<Rightarrow> (Normal, send w (ErrorMsg ''Video call not found'') st0)
      | Resolved (Some videoCall) \<Rightarrow>
          if initiatorId videoCall \<noteq> Some (userId message) \<and>
             participantId videoCall \<noteq> Some (userId message)
          then (Normal, send w (ErrorMsg ''Access denied to this call'') st0)
          else if type message = ''join''
          then (Normal, handleJoin w (callId message) (userId message) st0)
          else if type message = ''offer'' \<or> type message = ''answer'' \<or>
                  type message = ''ice-candidate''
          then (Normal, relaySignalingMessage (callId message) (userId message)
                          (type message) (data message) st0)
          else if type message = ''leave''
          then (Normal, handleLeave (callId message) (userId message) st0)
          else (Normal, st0))"

text \<open>The \<^verbatim>\<open>'message'\<close> listener of an authenticated socket: the parsed object's
  \<^verbatim>\<open>userId\<close> is overwritten with the authenticated one; anything thrown is answered
  with one error frame.\<close>

definition on_message :: "registry \<Rightarrow> ws \<Rightarrow> inbound \<Rightarrow> service \<Rightarrow> service" where
  "on_message getVideoCall w raw st =
     (case raw of
        Unparseable \<Rightarrow> send w (ErrorMsg ''Invalid message format'') st
      | Parsed d \<Rightarrow>
          (case handleMessage getVideoCall w
                  (d\<lparr>userId := authenticatedUserId (sockets st w)\<rparr>) st of
             (Threw, st') \<Rightarrow> send w (ErrorMsg ''Invalid message format'') st'
           | (Normal, st') \<Rightarrow> st'))"

text \<open>The \<^verbatim>\<open>'close'\<close> listener.\<close>

definition on_close :: "ws \<Rightarrow> service \<Rightarrow> service" where
  "on_close w st = handleDisconnect w st"

text \<open>The occupants of the room of a call; a call without a room has none.\<close>

definition occupants :: "service \<Rightarrow> callId \<Rightarrow> (userId \<times> ws) list" where
  "occupants st cid = (case rooms st cid of None \<Rightarrow> [] | Some r \<Rightarrow> participants r)"

text \<open>The service as constructed: \<^verbatim>\<open>rooms = new Map()\<close>, no lookup made yet.\<close>

definition initial :: "(ws \<Rightarrow> conn) \<Rightarrow> service" where
  "initial socks = \<lparr>rooms = Map.empty, sockets = socks, lookups = []\<rparr>"

text \<open>Sequences of Session Room operations, for any sockets, calls and identities.\<close>

datatype room_op = OpJoin ws callId userId | OpLeave callId userId

fun apply_op :: "room_op \<Rightarrow> service \<Rightarrow> service" where
  "apply_op (OpJoin w cid uid) st = handleJoin w cid uid st"
| "apply_op (OpLeave cid uid) st = handleLeave cid uid st"

definition run_ops :: "room_op list \<Rightarrow> service \<Rightarrow> service" where
  "run_ops ops st = fold apply_op ops st"

text \<open>The state of one room: at most two occupants, no identity twice, and the room is in
  the directory exactly when somebody occupies it.\<close>

definition room_ok :: "service \<Rightarrow> callId \<Rightarrow> bool" where
  "room_ok st c =
     (length (occupants st c) \<le> 2 \<and> distinct (map fst (occupants st c)) \<and>
      ((rooms st c \<noteq> None) = (occupants st c \<noteq> [])))"

text \<open>Three authenticated, open sockets, used in the concrete scenarios: socket 1 belongs
  to U1, socket 2 to U2, every other one to U3.\<close>

definition socks0 :: "ws \<Rightarrow> conn" where
  "socks0 w =
     \<lparr>authenticatedUserId = (if w = 1 then ''U1'' else if w = 2 then ''U2'' else ''U3''),
      ws_callId = None, readyState = OPEN, outbox = []\<rparr>"

text \<open>U1 and U2 have joined call C1, in this order.\<close>

definition two_joined :: service where
  "two_joined = run_ops [OpJoin 1 ''C1'' ''U1'', OpJoin 2 ''C1'' ''U2''] (initial socks0)"

text \<open>U1 alone has joined call C1.\<close>

definition one_joined :: service where
  "one_joined = run_ops [OpJoin 1 ''C1'' ''U1''] (initial socks0)"

text \<open>U2 alone has joined call C1; socket 1 of U1 is connected and has joined nothing.\<close>

definition u2_joined :: service where
  "u2_joined = run_ops [OpJoin 2 ''C1'' ''U2''] (initial socks0)"

text \<open>U1 and U2 have joined C1, and the transport of U2 has begun to close: its
  \<^verbatim>\<open>readyState\<close> is CLOSING and its \<^verbatim>\<open>'close'\<close> event has not fired yet.\<close>

definition two_joined_closing :: service where
  "two_joined_closing =
     two_joined\<lparr>sockets := (sockets two_joined)(2 := (sockets two_joined 2)\<lparr>readyState := CLOSING\<rparr>)\<rparr>"

text \<open>A registry that knows one call, C1, between U1 and U2.\<close>

definition reg0 :: registry where
  "reg0 c = (if c = ''C1''
             then Resolved (Some \<lparr>initiatorId = Some ''U1'', participantId = Some ''U2''\<rparr>)
             else Resolved None)"

text \<open>An inbound envelope for call C1, with the kind, the claimed sender and the payload
  given.\<close>

definition c1_envelope :: "string \<Rightarrow> userId \<Rightarrow> payload option \<Rightarrow> signaling_message" where
  "c1_envelope ty claimed d = \<lparr>type = ty, callId = ''C1'', userId = claimed, data = d\<rparr>"

text \<open>The guard of \<^const>\<open>handleMessage\<close> as a predicate: the registry has the call and the
  identity is its initiator or its participant.\<close>

definition authorized :: "registry \<Rightarrow> callId \<Rightarrow> userId \<Rightarrow> bool" where
  "authorized getVideoCall cid a =
     (case getVideoCall cid of
        Resolved (Some vc) \<Rightarrow> initiatorId vc = Some a \<or> participantId vc = Some a
      | _ \<Rightarrow> False)"

text \<open>A room is well formed when no identity occurs twice and every entry maps an
  identity to a socket authenticated as that identity.\<close>

definition wf_room :: "service \<Rightarrow> callId \<Rightarrow> bool" where
  "wf_room st c =
     (distinct (map fst (occupants st c)) \<and>
      list_all (\<lambda>p. authenticatedUserId (sockets st (snd p)) = fst p) (occupants st c))"

text \<open>Transport events, each message with the registry as it answers at that moment, and
  runs of the service over a sequence of them.\<close>

datatype event = Message registry ws inbound | Close ws

fun step :: "event \<Rightarrow> service \<Rightarrow> service" where
  "step (Message getVideoCall w raw) st = on_message getVideoCall w raw st"
| "step (Close w) st = on_close w st"

definition run :: "event list \<Rightarrow> service \<Rightarrow> service" where
  "run evs st = fold step evs st"

section \<open>Frame lemmas: what sending and broadcasting leave alone\<close>

lemma rooms_send [simp]: "rooms (send w m st) = rooms st"
  by (simp add: send_def)

lemma lookups_send [simp]: "lookups (send w m st) = lookups st"
  by (simp add: send_def)

lemma rooms_broadcast_one [simp]: "rooms (broadcast_one m e p st) = rooms st"
  by (simp add: broadcast_one_def)

lemma rooms_fold_broadcast [simp]: "rooms (fold (broadcast_one m e) ps st) = rooms st"
  by (induction ps arbitrary: st) simp_all

lemma rooms_broadcastToRoom [simp]: "rooms (broadcastToRoom cid m e st) = rooms st"
  by (simp add: broadcastToRoom_def split: option.splits)

lemma occupants_send [simp]: "occupants (send w m st) c = occupants st c"
  by (simp add: occupants_def)

lemma occupants_broadcastToRoom [simp]:
  "occupants (broadcastToRoom cid m e st) c = occupants st c"
  by (simp add: occupants_def)

section \<open>Membership after a join and after a leave\<close>

lemma update_absent: "map_of al k = None \<Longrightarrow> AList.update k v al = al @ [(k, v)]"
  by (induction al) (auto split: if_splits)

lemma has_iff: "has k al = (k \<in> fst ` set al)"
  by (simp add: has_def map_of_eq_None_iff)

lemma occupants_handleJoin:
  "occupants (handleJoin w cid uid st) c =
     (if c = cid \<and> \<not> has uid (occupants st cid) \<and> length (occupants st cid) < 2
      then occupants st cid @ [(uid, w)] else occupants st c)"
  by (auto simp: handleJoin_def Let_def occupants_def has_def update_absent
           split: option.splits)

lemma rooms_handleJoin_None:
  "(rooms (handleJoin w cid uid st) c = None) = (c \<noteq> cid \<and> rooms st c = None)"
  by (auto simp: handleJoin_def Let_def has_def split: option.splits)

lemma occupants_handleLeave:
  "occupants (handleLeave cid uid st) c =
     (if c = cid then AList.delete uid (occupants st cid) else occupants st c)"
  by (auto simp: handleLeave_def Let_def occupants_def split: option.splits)

lemma rooms_handleLeave_None:
  "(rooms (handleLeave cid uid st) c = None) =
     (if c = cid then AList.delete uid (occupants st cid) = [] else rooms st c = None)"
  by (auto simp: handleLeave_def Let_def occupants_def split: option.splits)

lemma handleJoin_full:
  assumes "length (occupants st cid) = 2" "uid \<notin> fst ` set (occupants st cid)"
  shows "handleJoin w cid uid st = send w (ErrorMsg ''Call is full'') st"
  using assms
  by (auto simp: handleJoin_def Let_def occupants_def has_iff split: option.splits)

section \<open>The room invariant along every sequence of joins and leaves\<close>

lemma room_ok_initial: "room_ok (initial socks) c"
  by (simp add: room_ok_def initial_def occupants_def)

lemma room_ok_handleJoin:
  assumes "\<And>c. room_ok st c" shows "room_ok (handleJoin w cid uid st) c"
  using assms [of c] assms [of cid]
  by (auto simp: room_ok_def occupants_handleJoin rooms_handleJoin_None has_iff)

lemma room_ok_handleLeave:
  assumes "\<And>c. room_ok st c" shows "room_ok (handleLeave cid uid st) c"
proof -
  have "length (AList.delete uid (occupants st cid)) \<le> length (occupants st cid)"
    by (rule length_delete_le)
  then show ?thesis
    using assms [of c] assms [of cid]
    by (auto simp: room_ok_def occupants_handleLeave rooms_handleLeave_None distinct_delete)
qed

lemma room_ok_run_ops: "(\<And>c. room_ok st c) \<Longrightarrow> room_ok (run_ops ops st) c"
  unfolding run_ops_def
proof (induction ops arbitrary: st c)
  case Nil
  then show ?case by simp
next
  case (Cons a ops)
  have "\<And>c. room_ok (apply_op a st) c"
    using Cons.prems by (cases a) (simp_all add: room_ok_handleJoin room_ok_handleLeave)
  then show ?case using Cons.IH by simp
qed

lemma room_ok_lookups [simp]: "room_ok (st\<lparr>lookups := l\<rparr>) c = room_ok st c"
  by (simp add: room_ok_def occupants_def)

lemma room_ok_send [simp]: "room_ok (send w m st) c = room_ok st c"
  by (simp add: room_ok_def)

section \<open>What each handler does to the sockets\<close>

lemma sockets_send:
  "sockets (send w m st) w' =
     (if w' = w then (sockets st w)\<lparr>outbox := outbox (sockets st w) @ [m]\<rparr> else sockets st w')"
  by (simp add: send_def)

lemma readyState_send [simp]:
  "readyState (sockets (send w m st) w') = readyState (sockets st w')"
  by (simp add: sockets_send)

lemma auth_send [simp]:
  "authenticatedUserId (sockets (send w m st) w') = authenticatedUserId (sockets st w')"
  by (simp add: sockets_send)

lemma ws_callId_send [simp]: "ws_callId (sockets (send w m st) w') = ws_callId (sockets st w')"
  by (simp add: sockets_send)

lemma sockets_broadcast_one:
  "sockets (broadcast_one m e p st) w =
     (if snd p = w \<and> Some (fst p) \<noteq> e \<and> readyState (sockets st w) = OPEN
      then (sockets st w)\<lparr>outbox := outbox (sockets st w) @ [m]\<rparr> else sockets st w)"
  by (auto simp: broadcast_one_def sockets_send)

text \<open>A broadcast appends one copy of the frame per entry of the room that names the
  socket under an identity other than the excluded one, provided the socket is open.\<close>

lemma sockets_fold_broadcast:
  "sockets (fold (broadcast_one m e) ps st) w =
     (sockets st w)\<lparr>outbox := outbox (sockets st w) @
        (if readyState (sockets st w) = OPEN
         then replicate (length (filter (\<lambda>p. snd p = w \<and> Some (fst p) \<noteq> e) ps)) m
         else [])\<rparr>"
proof (induction ps arbitrary: st)
  case Nil
  then show ?case by simp
next
  case (Cons p ps)
  show ?case
    by (simp add: Cons.IH sockets_broadcast_one replicate_app_Cons_same)
qed

lemma sockets_broadcastToRoom:
  "sockets (broadcastToRoom cid m e st) w =
     (sockets st w)\<lparr>outbox := outbox (sockets st w) @
        (if readyState (sockets st w) = OPEN
         then replicate
                (length (filter (\<lambda>p. snd p = w \<and> Some (fst p) \<noteq> e) (occupants st cid))) m
         else [])\<rparr>"
  by (simp add: broadcastToRoom_def occupants_def sockets_fold_broadcast split: option.splits)

lemma sockets_handleLeave:
  "sockets (handleLeave cid uid st) w =
     (sockets st w)\<lparr>outbox := outbox (sockets st w) @
        (if readyState (sockets st w) = OPEN
         then replicate (length (filter (\<lambda>p. snd p = w) (AList.delete uid (occupants st cid))))
                (UserLeft uid)
         else [])\<rparr>"
  by (simp add: handleLeave_def Let_def sockets_broadcastToRoom occupants_def
           split: option.splits)

lemma sockets_relay:
  "sockets (relaySignalingMessage cid a ty d st) w =
     (sockets st w)\<lparr>outbox := outbox (sockets st w) @
        (if readyState (sockets st w) = OPEN
         then replicate (length (filter (\<lambda>p. snd p = w \<and> fst p \<noteq> a) (occupants st cid)))
                (Relayed ty d a)
         else [])\<rparr>"
  by (simp add: relaySignalingMessage_def sockets_broadcastToRoom occupants_def
           split: option.splits)

lemma rooms_relay [simp]: "rooms (relaySignalingMessage cid a ty d st) = rooms st"
  by (simp add: relaySignalingMessage_def split: option.splits)

lemma occupants_relay [simp]:
  "occupants (relaySignalingMessage cid a ty d st) c = occupants st c"
  by (simp add: occupants_def)

lemma occupants_lookups [simp]: "occupants (st\<lparr>lookups := l\<rparr>) c = occupants st c"
  by (simp add: occupants_def)

lemma readyState_broadcastToRoom [simp]:
  "readyState (sockets (broadcastToRoom cid m e st) w) = readyState (sockets st w)"
  by (simp add: sockets_broadcastToRoom)

lemma auth_broadcastToRoom [simp]:
  "authenticatedUserId (sockets (broadcastToRoom cid m e st) w) =
   authenticatedUserId (sockets st w)"
  by (simp add: sockets_broadcastToRoom)

lemma ws_callId_broadcastToRoom [simp]:
  "ws_callId (sockets (broadcastToRoom cid m e st) w) = ws_callId (sockets st w)"
  by (simp add: sockets_broadcastToRoom)

lemma readyState_handleJoin [simp]:
  "readyState (sockets (handleJoin w cid uid st) w') = readyState (sockets st w')"
  by (simp add: handleJoin_def Let_def split: option.splits)

lemma auth_handleJoin [simp]:
  "authenticatedUserId (sockets (handleJoin w cid uid st) w') =
   authenticatedUserId (sockets st w')"
  by (simp add: handleJoin_def Let_def split: option.splits)

lemma ws_callId_handleJoin:
  "ws_callId (sockets (handleJoin w cid uid st) w') =
     (if w' = w \<and> \<not> has uid (occupants st cid) \<and> length (occupants st cid) < 2
      then Some cid else ws_callId (sockets st w'))"
  by (auto simp: handleJoin_def Let_def occupants_def has_def split: option.splits)

lemma readyState_handleLeave [simp]:
  "readyState (sockets (handleLeave cid uid st) w) = readyState (sockets st w)"
  by (simp add: sockets_handleLeave)

lemma auth_handleLeave [simp]:
  "authenticatedUserId (sockets (handleLeave cid uid st) w) =
   authenticatedUserId (sockets st w)"
  by (simp add: sockets_handleLeave)

lemma readyState_relay [simp]:
  "readyState (sockets (relaySignalingMessage cid a ty d st) w) = readyState (sockets st w)"
  by (simp add: sockets_relay)

lemma auth_relay [simp]:
  "authenticatedUserId (sockets (relaySignalingMessage cid a ty d st) w) =
   authenticatedUserId (sockets st w)"
  by (simp add: sockets_relay)

lemma readyState_on_message:
  "readyState (sockets (on_message getVideoCall w raw st) w') = readyState (sockets st w')"
  by (cases raw)
    (simp_all add: on_message_def handleMessage_def Let_def
      split: registry_answer.splits option.splits)

section \<open>The registry trace\<close>

lemma lookups_fold_broadcast [simp]: "lookups (fold (broadcast_one m e) ps st) = lookups st"
  by (induction ps arbitrary: st) (simp_all add: broadcast_one_def)

lemma lookups_broadcastToRoom [simp]: "lookups (broadcastToRoom cid m e st) = lookups st"
  by (simp add: broadcastToRoom_def split: option.splits)

lemma lookups_handleJoin [simp]: "lookups (handleJoin w cid uid st) = lookups st"
  by (simp add: handleJoin_def Let_def split: option.splits)

lemma lookups_handleLeave [simp]: "lookups (handleLeave cid uid st) = lookups st"
  by (simp add: handleLeave_def Let_def split: option.splits)

lemma lookups_relay [simp]: "lookups (relaySignalingMessage cid uid ty d st) = lookups st"
  by (simp add: relaySignalingMessage_def split: option.splits)

lemma lookups_handleDisconnect [simp]: "lookups (handleDisconnect w st) = lookups st"
  by (simp add: handleDisconnect_def Let_def split: option.splits)

section \<open>Special cases of a join\<close>

lemma handleJoin_fresh:
  assumes "rooms st cid = None"
  shows "handleJoin w cid uid st =
     send w (Joined cid 1)
       (st\<lparr>rooms := (rooms st)(cid \<mapsto> \<lparr>room_callId = cid, participants = [(uid, w)]\<rparr>),
           sockets := (sockets st)(w := (sockets st w)\<lparr>ws_callId := Some cid\<rparr>)\<rparr>)"
  using assms
  by (simp add: handleJoin_def Let_def has_def broadcastToRoom_def broadcast_one_def)


section \<open>Dispatch for an authorized sender\<close>

lemma handleMessage_authorized:
  assumes "authorized getVideoCall (callId m) (userId m)"
  shows "handleMessage getVideoCall w m st =
     (Normal,
      let st0 = st\<lparr>lookups := lookups st @ [callId m]\<rparr> in
      if type m = ''join'' then handleJoin w (callId m) (userId m) st0
      else if type m = ''offer'' \<or> type m = ''answer'' \<or> type m = ''ice-candidate''
      then relaySignalingMessage (callId m) (userId m) (type m) (data m) st0
      else if type m = ''leave'' then handleLeave (callId m) (userId m) st0
      else st0)"
  using assms
  by (auto simp: handleMessage_def authorized_def Let_def
           split: registry_answer.splits option.splits)

lemma on_message_authorized:
  assumes "authorized getVideoCall (callId m) (authenticatedUserId (sockets st w))"
  shows "on_message getVideoCall w (Parsed m) st =
     (let a = authenticatedUserId (sockets st w);
          st0 = st\<lparr>lookups := lookups st @ [callId m]\<rparr> in
      if type m = ''join'' then handleJoin w (callId m) a st0
      else if type m = ''offer'' \<or> type m = ''answer'' \<or> type m = ''ice-candidate''
      then relaySignalingMessage (callId m) a (type m) (data m) st0
      else if type m = ''leave'' then handleLeave (callId m) a st0
      else st0)"
  using assms by (simp add: on_message_def handleMessage_authorized Let_def)

section \<open>Well-formed rooms in every reachable state\<close>

lemma wf_room_initial: "wf_room (initial socks) c"
  by (simp add: wf_room_def initial_def occupants_def)

lemma wf_room_handleJoin:
  assumes "wf_room st c" "wf_room st cid" "uid = authenticatedUserId (sockets st w)"
  shows "wf_room (handleJoin w cid uid st) c"
  using assms by (auto simp: wf_room_def occupants_handleJoin has_iff)

lemma list_all_delete: "list_all P al \<Longrightarrow> list_all P (AList.delete k al)"
  by (induction al) auto

lemma wf_room_handleLeave:
  assumes "wf_room st c" "wf_room st cid"
  shows "wf_room (handleLeave cid uid st) c"
  using assms
  by (auto simp: wf_room_def occupants_handleLeave distinct_delete list_all_delete)

lemma wf_room_lookups [simp]: "wf_room (st\<lparr>lookups := l\<rparr>) c = wf_room st c"
  by (simp add: wf_room_def)

lemma wf_room_send [simp]: "wf_room (send w m st) c = wf_room st c"
  by (simp add: wf_room_def)

lemma wf_room_relay [simp]: "wf_room (relaySignalingMessage cid a ty d st) c = wf_room st c"
  by (simp add: wf_room_def)

lemma wf_room_on_message:
  assumes "\<And>c. wf_room st c" shows "wf_room (on_message getVideoCall w raw st) c"
proof (cases raw)
  case Unparseable
  then show ?thesis using assms by (simp add: on_message_def)
next
  case (Parsed d)
  then show ?thesis
    using assms
    by (auto simp: on_message_def handleMessage_def Let_def wf_room_handleJoin
                   wf_room_handleLeave
             split: registry_answer.splits option.splits)
qed

lemma wf_room_on_close:
  assumes "\<And>c. wf_room st c" shows "wf_room (on_close w st) c"
  using assms
  by (simp add: on_close_def handleDisconnect_def Let_def wf_room_handleLeave
           split: option.splits)

lemma room_ok_relay [simp]:
  "room_ok (relaySignalingMessage cid a ty d st) c = room_ok st c"
  by (simp add: room_ok_def)

lemma room_ok_on_message:
  assumes "\<And>c. room_ok st c" shows "room_ok (on_message getVideoCall w raw st) c"
proof (cases raw)
  case Unparseable
  then show ?thesis using assms by (simp add: on_message_def)
next
  case (Parsed d)
  then show ?thesis
    using assms
    by (auto simp: on_message_def handleMessage_def Let_def room_ok_handleJoin
                   room_ok_handleLeave
             split: registry_answer.splits option.splits)
qed

lemma room_ok_on_close:
  assumes "\<And>c. room_ok st c" shows "room_ok (on_close w st) c"
  using assms
  by (simp add: on_close_def handleDisconnect_def Let_def room_ok_handleLeave
           split: option.splits)

text \<open>Whatever the clients send and whenever they disconnect, every room stays well formed
  and within capacity.\<close>

lemma reachable_ok:
  "(\<And>c. wf_room st c \<and> room_ok st c) \<Longrightarrow> wf_room (run evs st) c \<and> room_ok (run evs st) c"
  unfolding run_def
proof (induction evs arbitrary: st c)
  case Nil
  then show ?case by simp
next
  case (Cons e evs)
  have "\<And>c. wf_room (step e st) c \<and> room_ok (step e st) c"
    using Cons.prems
    by (cases e)
      (simp_all add: wf_room_on_message wf_room_on_close room_ok_on_message room_ok_on_close)
  then show ?case using Cons.IH by simp
qed

lemma reachable_from_initial:
  "wf_room (run evs (initial socks)) c \<and> room_ok (run evs (initial socks)) c"
  by (rule reachable_ok) (simp add: wf_room_initial room_ok_initial)

lemma count_distinct_snd:
  "distinct (map snd ps) \<Longrightarrow>
   length (filter (\<lambda>p. snd p = w \<and> Q p) ps) = (if w \<in> snd ` set (filter Q ps) then 1 else 0)"
proof (induction ps)
  case Nil
  then show ?case by simp
next
  case (Cons p ps)
  then have IH: "length (filter (\<lambda>p. snd p = w \<and> Q p) ps) =
      (if w \<in> snd ` set (filter Q ps) then 1 else 0)"
    and fresh: "snd p \<notin> snd ` set ps"
    by simp_all
  show ?case
  proof (cases "snd p = w \<and> Q p")
    case True
    with fresh have "w \<notin> snd ` set (filter Q ps)" by auto
    with True IH show ?thesis by simp
  next
    case False
    with IH show ?thesis by auto
  qed
qed

lemma wf_room_distinct_snd:
  assumes "wf_room st c" shows "distinct (map snd (occupants st c))"
proof -
  have "map fst (occupants st c) =
        map (\<lambda>x. authenticatedUserId (sockets st x)) (map snd (occupants st c))"
    using assms by (simp add: wf_room_def list_all_iff)
  moreover have "distinct (map fst (occupants st c))"
    using assms by (simp add: wf_room_def)
  ultimately have
    "distinct (map (\<lambda>x. authenticatedUserId (sockets st x)) (map snd (occupants st c)))"
    by (simp only:)
  then show ?thesis by (simp only: distinct_map)
qed

lemma wf_room_owner:
  assumes "wf_room st c" "(u, w) \<in> set (occupants st c)"
  shows "u = authenticatedUserId (sockets st w)"
  using assms by (auto simp: wf_room_def list_all_iff)

section \<open>The concrete scenarios\<close>

lemmas scenario_defs =
  two_joined_def one_joined_def u2_joined_def run_ops_def initial_def socks0_def reg0_def
  c1_envelope_def

lemmas handler_defs =
  on_close_def on_message_def handleMessage_def handleJoin_def handleLeave_def
  handleDisconnect_def relaySignalingMessage_def broadcastToRoom_def broadcast_one_def
  send_def has_def truthy_def Let_def

lemma occupants_two_joined: "occupants two_joined ''C1'' = [(''U1'', 1), (''U2'', 2)]"
  by (simp add: two_joined_def run_ops_def initial_def occupants_handleJoin has_def)
    (simp add: occupants_def)

lemma occupants_one_joined: "occupants one_joined ''C1'' = [(''U1'', 1)]"
  by (simp add: one_joined_def run_ops_def initial_def occupants_handleJoin has_def)
    (simp add: occupants_def)

lemma auth_two_joined [simp]:
  "authenticatedUserId (sockets two_joined w) = authenticatedUserId (socks0 w)"
  by (simp add: two_joined_def run_ops_def initial_def)

lemma readyState_two_joined [simp]: "readyState (sockets two_joined w) = OPEN"
  by (simp add: two_joined_def run_ops_def initial_def socks0_def)

lemma ws_callId_two_joined_3: "ws_callId (sockets two_joined 3) = None"
  by (simp add: two_joined_def run_ops_def initial_def ws_callId_handleJoin socks0_def)

lemma wf_room_two_joined: "wf_room two_joined ''C1''"
  by (simp add: wf_room_def occupants_two_joined socks0_def)

lemma authorized_reg0: "authorized reg0 ''C1'' ''U1''"
  by (simp add: authorized_def reg0_def)

section \<open>Claims\<close>

text \<open>
  C1. Along every sequence of join and leave operations, started from the service as
  constructed, the room of a call has at most two occupants and no identity occupies two
  slots; and when two identities are present, a join by a third one is answered with the
  error frame "Call is full" on the joining socket and changes nothing else.
\<close>

theorem capacity_invariant:
  "length (occupants (run_ops ops (initial socks)) cid) \<le> 2 \<and>
   distinct (map fst (occupants (run_ops ops (initial socks)) cid)) \<and>
   (length (occupants (run_ops ops (initial socks)) cid) = 2 \<and>
    uid \<notin> fst ` set (occupants (run_ops ops (initial socks)) cid) \<longrightarrow>
      handleJoin w cid uid (run_ops ops (initial socks)) =
        send w (ErrorMsg ''Call is full'') (run_ops ops (initial socks)))"
proof -
  have "room_ok (run_ops ops (initial socks)) cid"
    by (rule room_ok_run_ops) (rule room_ok_initial)
  then show ?thesis
    by (simp add: room_ok_def handleJoin_full)
qed

text \<open>U1 and U2 occupy the room of C1; U3 tries to join on socket 3.\<close>

theorem capacity_invariant_witness:
  "length (occupants two_joined ''C1'') = 2 \<and>
   ''U3'' \<notin> fst ` set (occupants two_joined ''C1'') \<and>
   handleJoin 3 ''C1'' ''U3'' two_joined = send 3 (ErrorMsg ''Call is full'') two_joined"
  using capacity_invariant [of "[OpJoin 1 ''C1'' ''U1'', OpJoin 2 ''C1'' ''U2'']" socks0
      "''C1''" "''U3''" 3, folded two_joined_def]
  by (simp add: occupants_two_joined)

text \<open>
  C2. A join envelope from a socket whose authenticated identity is neither the initiator
  nor the participant of the call the registry returns is answered with the error frame
  "Access denied to this call" on that socket only; the room directory is untouched,
  whatever the occupancy of the room.
\<close>

theorem unauthorized_join_denied:
  assumes "getVideoCall (callId m) = Resolved (Some vc)"
    and "initiatorId vc \<noteq> Some (authenticatedUserId (sockets st w))"
    and "participantId vc \<noteq> Some (authenticatedUserId (sockets st w))"
    and "type m = ''join''"
  shows "rooms (on_message getVideoCall w (Parsed m) st) = rooms st \<and>
         sockets (on_message getVideoCall w (Parsed m) st) =
           (sockets st)(w := (sockets st w)\<lparr>outbox := outbox (sockets st w) @
               [ErrorMsg ''Access denied to this call'']\<rparr>)"
  using assms by (simp add: on_message_def handleMessage_def Let_def send_def)

text \<open>U3, on socket 3, asks to join C1 while U1 and U2 are in the room, and claims to be
  U1 in the payload.\<close>

theorem unauthorized_join_denied_witness:
  "reg0 (callId (c1_envelope ''join'' ''U1'' None)) =
     Resolved (Some \<lparr>initiatorId = Some ''U1'', participantId = Some ''U2''\<rparr>) \<and>
   authenticatedUserId (sockets two_joined 3) = ''U3'' \<and>
   type (c1_envelope ''join'' ''U1'' None) = ''join'' \<and>
   rooms (on_message reg0 3 (Parsed (c1_envelope ''join'' ''U1'' None)) two_joined) =
     rooms two_joined \<and>
   sockets (on_message reg0 3 (Parsed (c1_envelope ''join'' ''U1'' None)) two_joined) =
     (sockets two_joined)(3 := (sockets two_joined 3)\<lparr>outbox := outbox (sockets two_joined 3) @
        [ErrorMsg ''Access denied to this call'']\<rparr>)"
  using unauthorized_join_denied [of reg0 "c1_envelope ''join'' ''U1'' None"
      "\<lparr>initiatorId = Some ''U1'', participantId = Some ''U2''\<rparr>" two_joined 3]
  by (simp add: reg0_def c1_envelope_def socks0_def)


text \<open>
  C4, as amended. Leave never fails, but it notifies on every call: when an identity of a
  two-occupant room leaves twice and the peer's socket is open, the peer receives a
  user-left frame on each of the two calls, two in all; the second call changes no
  membership, the room stays with the peer as its only occupant, and no other socket
  receives anything.
\<close>

theorem double_leave_notifies_twice:
  assumes "occupants st cid = [(a, wa), (b, wb)] \<or> occupants st cid = [(b, wb), (a, wa)]"
    and "a \<noteq> b"
    and "readyState (sockets st wb) = OPEN"
  shows "occupants (handleLeave cid a st) cid = [(b, wb)] \<and>
         sockets (handleLeave cid a st) =
           (sockets st)(wb := (sockets st wb)\<lparr>outbox := outbox (sockets st wb) @
              [UserLeft a]\<rparr>) \<and>
         occupants (handleLeave cid a (handleLeave cid a st)) cid = [(b, wb)] \<and>
         sockets (handleLeave cid a (handleLeave cid a st)) =
           (sockets st)(wb := (sockets st wb)\<lparr>outbox := outbox (sockets st wb) @
              [UserLeft a, UserLeft a]\<rparr>)"
  using assms
  by (auto simp: occupants_handleLeave sockets_handleLeave fun_eq_iff)

theorem double_leave_notifies_twice_witness:
  "occupants two_joined ''C1'' = [(''U1'', 1), (''U2'', 2)] \<and>
   readyState (sockets two_joined 2) = OPEN \<and>
   occupants (handleLeave ''C1'' ''U1'' (handleLeave ''C1'' ''U1'' two_joined)) ''C1'' =
     [(''U2'', 2)] \<and>
   sockets (handleLeave ''C1'' ''U1'' (handleLeave ''C1'' ''U1'' two_joined)) =
     (sockets two_joined)(2 := (sockets two_joined 2)\<lparr>outbox := outbox (sockets two_joined 2) @
        [UserLeft ''U1'', UserLeft ''U1'']\<rparr>)"
  using double_leave_notifies_twice [of two_joined "''C1''" "''U1''" 1 "''U2''" 2]
  by (simp add: occupants_two_joined)

text \<open>
  C4 as stated fails: U1 sends a leave envelope and then its transport closes; the socket
  still remembers the call, the room still exists because U2 is in it, and U2 is told
  twice that U1 left.
\<close>

theorem double_leave_counterexample:
  "outbox (sockets (on_close 1
      (on_message reg0 1 (Parsed (c1_envelope ''leave'' ''U1'' None)) two_joined)) 2) =
     [Joined ''C1'' 2, UserLeft ''U1'', UserLeft ''U1'']"
  by (simp add: scenario_defs handler_defs)




text \<open>
  C6, as amended. The registry is asked exactly once for every parsed inbound envelope,
  of whatever kind, with the envelope's call identifier; an unparseable frame and a
  transport close ask nothing.
\<close>

theorem registry_asked_for_every_envelope:
  "lookups (on_message getVideoCall w (Parsed m) st) = lookups st @ [callId m] \<and>
   lookups (on_message getVideoCall w Unparseable st) = lookups st \<and>
   lookups (on_close w st) = lookups st"
  by (simp add: on_message_def handleMessage_def on_close_def Let_def
      split: registry_answer.splits option.splits)

text \<open>
  C6 as stated fails: an offer from U1 in the room of C1 asks the registry, and what
  happens depends on the answer. With the call in the registry U2 receives the offer;
  with an empty registry U2 receives nothing and U1 is told the call was not found.
\<close>

theorem registry_counterexample:
  "lookups (on_message reg0 1 (Parsed (c1_envelope ''offer'' ''U1'' (Some ''O''))) two_joined) =
     lookups two_joined @ [''C1''] \<and>
   outbox (sockets (on_message reg0 1
      (Parsed (c1_envelope ''offer'' ''U1'' (Some ''O''))) two_joined) 2) =
     [Joined ''C1'' 2, Relayed ''offer'' (Some ''O'') ''U1''] \<and>
   outbox (sockets (on_message (\<lambda>c. Resolved None) 1
      (Parsed (c1_envelope ''offer'' ''U1'' (Some ''O''))) two_joined) 2) =
     [Joined ''C1'' 2] \<and>
   outbox (sockets (on_message (\<lambda>c. Resolved None) 1
      (Parsed (c1_envelope ''offer'' ''U1'' (Some ''O''))) two_joined) 1) =
     [Joined ''C1'' 1, UserJoined ''U2'', ErrorMsg ''Video call not found'']"
  by (simp add: scenario_defs handler_defs)

text \<open>
  C7. Along every sequence of join and leave operations, started from the service as
  constructed, a call has a room in the directory exactly when somebody occupies it; when
  the only occupant leaves, the room is removed, and the next join for the same call
  creates a new room holding the joiner alone, who is told that the count is one.
\<close>

theorem destroy_on_empty:
  "(rooms (run_ops ops (initial socks)) c \<noteq> None) =
     (occupants (run_ops ops (initial socks)) c \<noteq> []) \<and>
   (occupants (run_ops ops (initial socks)) c = [(u, w)] \<longrightarrow>
      rooms (handleLeave c u (run_ops ops (initial socks))) c = None \<and>
      rooms (handleJoin w' c u' (handleLeave c u (run_ops ops (initial socks)))) c =
        Some \<lparr>room_callId = c, participants = [(u', w')]\<rparr> \<and>
      outbox (sockets (handleJoin w' c u' (handleLeave c u (run_ops ops (initial socks)))) w') =
        outbox (sockets (handleLeave c u (run_ops ops (initial socks))) w') @ [Joined c 1])"
proof -
  have "room_ok (run_ops ops (initial socks)) c"
    by (rule room_ok_run_ops) (rule room_ok_initial)
  then have iff: "(rooms (run_ops ops (initial socks)) c \<noteq> None) =
     (occupants (run_ops ops (initial socks)) c \<noteq> [])"
    by (simp add: room_ok_def)
  have gone: "rooms (handleLeave c u S) c = None" if "occupants S c = [(u, w)]" for S
    using that by (simp add: rooms_handleLeave_None)
  show ?thesis
    using iff gone [of "run_ops ops (initial socks)"]
    by (auto simp: handleJoin_fresh send_def)
qed

text \<open>U1 joins C1 and leaves; then U2 joins on socket 2.\<close>

theorem destroy_on_empty_witness:
  "occupants one_joined ''C1'' = [(''U1'', 1)] \<and>
   rooms (handleLeave ''C1'' ''U1'' one_joined) ''C1'' = None \<and>
   rooms (handleJoin 2 ''C1'' ''U2'' (handleLeave ''C1'' ''U1'' one_joined)) ''C1'' =
     Some \<lparr>room_callId = ''C1'', participants = [(''U2'', 2)]\<rparr> \<and>
   outbox (sockets (handleJoin 2 ''C1'' ''U2'' (handleLeave ''C1'' ''U1'' one_joined)) 2) =
     outbox (sockets (handleLeave ''C1'' ''U1'' one_joined) 2) @ [Joined ''C1'' 1]"
  using destroy_on_empty [of "[OpJoin 1 ''C1'' ''U1'']" socks0 "''C1''" "''U1''" 1 2 "''U2''",
      folded one_joined_def]
  by (simp add: occupants_one_joined)

text \<open>
  C8, as amended. When an authorized occupant of a well-formed room sends an offer, an
  answer or an ice-candidate, the frame, with the kind and the payload as received and
  the authenticated identity of the sending socket as \<^verbatim>\<open>fromUserId\<close>, is appended
  once to the socket of every other occupant whose socket is open, and to no other
  socket; the sending socket receives nothing, the rooms are unchanged, and a sender
  alone in the room causes no frame at all.
\<close>

theorem relay_to_open_peers:
  assumes a: "a = authenticatedUserId (sockets st w)"
    and auth: "authorized getVideoCall cid a"
    and wf: "wf_room st cid"
    and occ: "has a (occupants st cid)"
    and ty: "ty = ''offer'' \<or> ty = ''answer'' \<or> ty = ''ice-candidate''"
  shows "rooms (on_message getVideoCall w
                  (Parsed \<lparr>type = ty, callId = cid, userId = x, data = d\<rparr>) st) = rooms st \<and>
         sockets (on_message getVideoCall w
                  (Parsed \<lparr>type = ty, callId = cid, userId = x, data = d\<rparr>) st) =
           (\<lambda>w'. if w' \<in> snd ` set (filter (\<lambda>p. fst p \<noteq> a) (occupants st cid)) \<and>
                     readyState (sockets st w') = OPEN
                  then (sockets st w')\<lparr>outbox := outbox (sockets st w') @ [Relayed ty d a]\<rparr>
                  else sockets st w') \<and>
         sockets (on_message getVideoCall w
                  (Parsed \<lparr>type = ty, callId = cid, userId = x, data = d\<rparr>) st) w =
           sockets st w \<and>
         (length (occupants st cid) = 1 \<longrightarrow>
            sockets (on_message getVideoCall w
                  (Parsed \<lparr>type = ty, callId = cid, userId = x, data = d\<rparr>) st) = sockets st)"
proof -
  let ?m = "\<lparr>type = ty, callId = cid, userId = x, data = d\<rparr>"
  let ?st0 = "st\<lparr>lookups := lookups st @ [cid]\<rparr>"
  let ?others = "snd ` set (filter (\<lambda>p. fst p \<noteq> a) (occupants st cid))"
  have run: "on_message getVideoCall w (Parsed ?m) st = relaySignalingMessage cid a ty d ?st0"
    using a auth ty by (auto simp: on_message_authorized Let_def)
  have dist: "distinct (map snd (occupants st cid))"
    using wf by (rule wf_room_distinct_snd)
  have socks: "sockets (relaySignalingMessage cid a ty d ?st0) w' =
      (if w' \<in> ?others \<and> readyState (sockets st w') = OPEN
       then (sockets st w')\<lparr>outbox := outbox (sockets st w') @ [Relayed ty d a]\<rparr>
       else sockets st w')" for w'
    by (simp add: sockets_relay count_distinct_snd [OF dist])
  have self: "w \<notin> ?others"
    using wf_room_owner [OF wf] a by auto
  have alone: "?others = {}" if "length (occupants st cid) = 1"
  proof -
    from that obtain p where p: "occupants st cid = [p]"
      by (cases "occupants st cid") auto
    with occ have "fst p = a" by (simp add: has_iff)
    with p show ?thesis by simp
  qed
  have c1: "rooms (on_message getVideoCall w (Parsed ?m) st) = rooms st"
    by (simp add: run)
  have c2: "sockets (on_message getVideoCall w (Parsed ?m) st) =
      (\<lambda>w'. if w' \<in> ?others \<and> readyState (sockets st w') = OPEN
            then (sockets st w')\<lparr>outbox := outbox (sockets st w') @ [Relayed ty d a]\<rparr>
            else sockets st w')"
    unfolding run by (rule ext) (rule socks)
  have c3: "sockets (on_message getVideoCall w (Parsed ?m) st) w = sockets st w"
    unfolding run socks using self by simp
  have c4: "sockets (on_message getVideoCall w (Parsed ?m) st) = sockets st"
    if "length (occupants st cid) = 1"
    unfolding run by (rule ext) (simp only: socks alone [OF that] empty_iff simp_thms if_False)
  from c1 c2 c3 c4 show ?thesis by blast
qed

text \<open>U1 and U2 are in the room of C1, both sockets open; U1 sends an offer with payload
  O, claiming to be U2. Socket 2 receives it stamped with U1, socket 1 nothing.\<close>

theorem relay_to_open_peers_witness:
  "''U1'' = authenticatedUserId (sockets two_joined 1) \<and>
   authorized reg0 ''C1'' ''U1'' \<and> wf_room two_joined ''C1'' \<and>
   has ''U1'' (occupants two_joined ''C1'') \<and>
   sockets (on_message reg0 1
     (Parsed \<lparr>type = ''offer'', callId = ''C1'', userId = ''U2'', data = Some ''O''\<rparr>)
     two_joined) 2 =
   (sockets two_joined 2)\<lparr>outbox := outbox (sockets two_joined 2) @
      [Relayed ''offer'' (Some ''O'') ''U1'']\<rparr> \<and>
   sockets (on_message reg0 1
     (Parsed \<lparr>type = ''offer'', callId = ''C1'', userId = ''U2'', data = Some ''O''\<rparr>)
     two_joined) 1 = sockets two_joined 1"
  using relay_to_open_peers [of "''U1''" two_joined 1 reg0 "''C1''" "''offer''" "''U2''"
      "Some ''O''"]
  by (simp add: authorized_reg0 wf_room_two_joined occupants_two_joined has_def socks0_def)

text \<open>
  C8 as stated fails: U2 is an occupant of the room, but its socket is closing; the offer
  of U1 is delivered to nobody.
\<close>

theorem relay_closing_counterexample:
  "occupants two_joined_closing ''C1'' = [(''U1'', 1), (''U2'', 2)] \<and>
   sockets (on_message reg0 1
      (Parsed (c1_envelope ''offer'' ''U1'' (Some ''O''))) two_joined_closing) =
     sockets two_joined_closing"
  by (simp add: two_joined_closing_def scenario_defs handler_defs occupants_def)

text \<open>
  C9, as amended. An unparseable inbound frame is answered with the error frame
  "Invalid message format" on the sending socket and changes nothing else; and no inbound
  frame whatever, unparseable, of unknown kind or valid, changes the
  \<^verbatim>\<open>readyState\<close> of any socket.
\<close>

theorem unparseable_answered:
  "on_message getVideoCall w Unparseable st = send w (ErrorMsg ''Invalid message format'') st \<and>
   readyState (sockets (on_message getVideoCall w raw st) w') = readyState (sockets st w')"
  by (simp add: readyState_on_message) (simp add: on_message_def)

text \<open>
  C9 as stated fails: U1, in the room of C1, sends an envelope of the unknown kind
  "ping"; no socket receives a frame, only the registry was asked.
\<close>

theorem unknown_kind_counterexample:
  "on_message reg0 1 (Parsed (c1_envelope ''ping'' ''U1'' None)) two_joined =
     two_joined\<lparr>lookups := lookups two_joined @ [''C1'']\<rparr> \<and>
   outbox (sockets (on_message reg0 1 (Parsed (c1_envelope ''ping'' ''U1'' None)) two_joined) 1) =
     [Joined ''C1'' 1, UserJoined ''U2'']"
  by (simp add: scenario_defs handler_defs)

text \<open>
  C10. When the transport of a socket that never stored a call identifier closes, the
  close listener changes nothing: no room, no membership, and no frame to anybody.
\<close>

theorem disconnect_without_join:
  "ws_callId (sockets st w) = None \<Longrightarrow> on_close w st = st"
  by (simp add: on_close_def handleDisconnect_def)

text \<open>Socket 3 never joined; it closes while U1 and U2 are in the room of C1.\<close>

theorem disconnect_without_join_witness:
  "ws_callId (sockets two_joined 3) = None \<and> on_close 3 two_joined = two_joined"
  using disconnect_without_join [of two_joined 3]
  by (simp add: ws_callId_two_joined_3)

end
